theory Spec2Isabelle
  imports Complex_Main "HOL-Library.Log_Nat"
begin

section \<open>Python values used by xodraw.py\<close>

text \<open>
  The module \<^verbatim>\<open>xodraw.py\<close> issues commands to a turtle drawing surface
  (ColabTurtle). The surface is an external collaborator: a call of one of its
  primitives is recorded as one command of a trace and is taken not to raise.
  Everything the module itself computes is modelled: integers are Python's
  unbounded ints, \<^verbatim>\<open>a / b\<close> and \<^verbatim>\<open>c * 0.2\<close> are binary64
  operations, and every exception the module's own expressions can raise
  (\<^verbatim>\<open>IndexError\<close>, \<^verbatim>\<open>KeyError\<close>, \<^verbatim>\<open>OverflowError\<close>,
  \<^verbatim>\<open>ZeroDivisionError\<close>) is a value.
\<close>

datatype py_error = IndexError | KeyError | OverflowError | ZeroDivisionError

subsection \<open>Binary64 arithmetic\<close>

text \<open>
  A finite Python float is the rational number it denotes; \<open>Infinite\<close> stands
  for an infinity, which only a float multiplication can produce here.
\<close>

datatype pyfloat = Finite rat | Infinite

definition pow2 :: "int \<Rightarrow> rat" where
  "pow2 k = (if 0 \<le> k then 2 ^ nat k else 1 / 2 ^ nat (- k))"

definition binexp :: "rat \<Rightarrow> int" where
  \<comment> \<open>the exponent \<open>e\<close> with \<open>2^e \<le> |q| < 2^(e+1)\<close>, for \<open>q \<noteq> 0\<close>\<close>
  "binexp q =
     (if 1 \<le> \<bar>q\<bar> then bitlen \<lfloor>\<bar>q\<bar>\<rfloor> - 1 else - bitlen (\<lceil>1 / \<bar>q\<bar>\<rceil> - 1))"

definition round_half_even :: "rat \<Rightarrow> int" where
  "round_half_even y =
     (let f = \<lfloor>y\<rfloor>; r = y - of_int f
      in if r < 1 / 2 then f
         else if 1 / 2 < r then f + 1
         else if even f then f else f + 1)"

definition fl :: "rat \<Rightarrow> pyfloat" where
  \<comment> \<open>round to nearest, ties to even, with a 53 bit significand; exponents below
      \<open>-1022\<close> share the spacing of the subnormal numbers\<close>
  "fl q =
     (if q = 0 then Finite 0
      else let u = pow2 (max (binexp q) (- 1022) - 52);
               r = of_int (round_half_even (q / u)) * u
           in if 2 ^ 1024 \<le> \<bar>r\<bar> then Infinite else Finite r)"

definition py_truediv :: "int \<Rightarrow> int \<Rightarrow> py_error + rat" where
  \<comment> \<open>\<^verbatim>\<open>a / b\<close> on two ints: the correctly rounded quotient\<close>
  "py_truediv a b =
     (if b = 0 then Inl ZeroDivisionError
      else case fl (of_int a / of_int b) of
             Infinite \<Rightarrow> Inl OverflowError
           | Finite r \<Rightarrow> Inr r)"

definition py_float :: "int \<Rightarrow> py_error + rat" where
  \<comment> \<open>the conversion of an int operand of a mixed int/float operation\<close>
  "py_float n = (case fl (of_int n) of Infinite \<Rightarrow> Inl OverflowError | Finite r \<Rightarrow> Inr r)"

definition py_mul :: "rat \<Rightarrow> rat \<Rightarrow> pyfloat" where
  "py_mul x y = fl (x * y)"

definition math_floor :: "pyfloat \<Rightarrow> py_error + int" where
  "math_floor x = (case x of Infinite \<Rightarrow> Inl OverflowError | Finite r \<Rightarrow> Inr \<lfloor>r\<rfloor>)"

definition floor_truediv :: "int \<Rightarrow> int \<Rightarrow> py_error + int" where
  \<comment> \<open>\<^verbatim>\<open>math.floor(a / b)\<close>\<close>
  "floor_truediv a b =
     (case py_truediv a b of Inl e \<Rightarrow> Inl e | Inr r \<Rightarrow> math_floor (Finite r))"

definition floor_mul :: "int \<Rightarrow> rat \<Rightarrow> py_error + int" where
  \<comment> \<open>\<^verbatim>\<open>math.floor(n * c)\<close> and \<^verbatim>\<open>math.floor(c * n)\<close> for an int \<open>n\<close> and a float \<open>c\<close>\<close>
  "floor_mul n c =
     (case py_float n of Inl e \<Rightarrow> Inl e | Inr x \<Rightarrow> math_floor (py_mul x c))"

definition float_literal :: "rat \<Rightarrow> rat" where
  \<comment> \<open>the float a decimal literal denotes; the literals of the module, \<open>0.2\<close> and
      \<open>1.4\<close>, are finite\<close>
  "float_literal q = (case fl q of Finite r \<Rightarrow> r | Infinite \<Rightarrow> 0)"

subsection \<open>Strings, lists and dictionaries\<close>

text \<open>
  A \<^verbatim>\<open>str\<close> is a list of characters with code points below 256, on which
  \<^verbatim>\<open>str.lower\<close> maps the letters A-Z and the capital letters of Latin-1
  (\<open>0xC0\<close> to \<open>0xDE\<close> without \<open>0xD7\<close>) 32 code points up.
\<close>

definition lower_char :: "char \<Rightarrow> char" where
  "lower_char c =
     (let n = (of_char c :: nat)
      in if (65 \<le> n \<and> n \<le> 90) \<or> (192 \<le> n \<and> n \<le> 222 \<and> n \<noteq> 215)
         then char_of (n + 32) else c)"

definition lower :: "string \<Rightarrow> string" where
  "lower s = map lower_char s"

definition py_index :: "'a list \<Rightarrow> int \<Rightarrow> py_error + 'a" where
  \<comment> \<open>\<^verbatim>\<open>xs[i]\<close>; the indices \<open>-len(xs)\<close> to \<open>-1\<close> select from the end\<close>
  "py_index xs i =
     (if 0 \<le> i \<and> i < int (length xs) then Inr (xs ! nat i)
      else if - int (length xs) \<le> i \<and> i < 0 then Inr (xs ! nat (int (length xs) + i))
      else Inl IndexError)"

definition py_range :: "int \<Rightarrow> int \<Rightarrow> int list" where
  \<comment> \<open>\<^verbatim>\<open>range(a, b)\<close>\<close>
  "py_range a b = [a..b - 1]"

definition py_lookup :: "('k \<rightharpoonup> 'v) \<Rightarrow> 'k \<Rightarrow> py_error + 'v" where
  \<comment> \<open>\<^verbatim>\<open>d[k]\<close> on a dict\<close>
  "py_lookup d k = (case d k of None \<Rightarrow> Inl KeyError | Some v \<Rightarrow> Inr v)"

section \<open>The drawing surface\<close>

datatype cmd =
    InitializeTurtle int "int \<times> int"
  | HideTurtle
  | Color string
  | PenUp
  | PenDown
  | Goto int int
  | RightTurn rat
  | Forward int

text \<open>
  The outcome of a procedure: the commands it issued, in order, and the
  exception that ended it, if one did.
\<close>

type_synonym outcome = "cmd list \<times> py_error option"

definition emit :: "cmd list \<Rightarrow> outcome" where
  "emit cs = (cs, None)"

definition raise :: "py_error \<Rightarrow> outcome" where
  "raise e = ([], Some e)"

definition then_do :: "outcome \<Rightarrow> outcome \<Rightarrow> outcome" where
  \<comment> \<open>sequential composition: the second part runs only if the first did not raise\<close>
  "then_do a b = (case snd a of Some e \<Rightarrow> a | None \<Rightarrow> (fst a @ fst b, snd b))"

definition after :: "py_error + 'a \<Rightarrow> ('a \<Rightarrow> outcome) \<Rightarrow> outcome" where
  \<comment> \<open>an expression that may raise, and what follows it when it does not\<close>
  "after x f = (case x of Inl e \<Rightarrow> raise e | Inr v \<Rightarrow> f v)"

section \<open>xodraw.py\<close>

definition drawNewBoard :: "int \<Rightarrow> string \<Rightarrow> int \<Rightarrow> outcome" where
  "drawNewBoard sz colour margin =
     after (floor_truediv sz 3) (\<lambda>cellSize.
      let boardSize = (cellSize * 3, cellSize * 3);
          canvasSize = (sz + (2 * margin), sz + (2 * margin))
      in emit
        [InitializeTurtle 10 canvasSize, HideTurtle, Color colour,
         PenUp, Goto (margin + cellSize) margin,
         PenDown, Goto (margin + cellSize) (margin + snd boardSize),
         PenUp, Goto (margin + fst boardSize - cellSize) margin,
         PenDown, Goto (margin + fst boardSize - cellSize) (margin + snd boardSize),
         PenUp, Goto margin (margin + cellSize),
         PenDown, Goto (margin + fst boardSize) (margin + cellSize),
         PenUp, Goto margin (margin + snd boardSize - cellSize),
         PenDown, Goto (margin + fst boardSize) (margin + snd boardSize - cellSize)])"

text \<open>
  The two nested loops that draw an O; the first argument counts the iterations
  that remain of \<^verbatim>\<open>range(step_len)\<close> and of \<^verbatim>\<open>range(steps)\<close>.
\<close>

fun draw_O_inner :: "nat \<Rightarrow> int \<Rightarrow> int \<Rightarrow> outcome" where
  "draw_O_inner 0 steps step_len = emit []"
| "draw_O_inner (Suc k) steps step_len =
     after (py_truediv 360 (steps * step_len)) (\<lambda>a.
      then_do (emit [RightTurn a, Forward 1]) (draw_O_inner k steps step_len))"

fun draw_O_outer :: "nat \<Rightarrow> int \<Rightarrow> int \<Rightarrow> outcome" where
  "draw_O_outer 0 steps step_len = emit []"
| "draw_O_outer (Suc k) steps step_len =
     then_do (draw_O_inner (nat step_len) steps step_len) (draw_O_outer k steps step_len)"

definition drawMarker :: "string \<Rightarrow> int \<times> int \<Rightarrow> int \<Rightarrow> string \<Rightarrow> int \<Rightarrow> outcome" where
  "drawMarker team pos sz colour margin =
     after (floor_truediv sz 3) (\<lambda>cellSize.
     after (floor_mul cellSize (float_literal (2 / 10))) (\<lambda>x_offset.
     after (floor_mul cellSize (float_literal (2 / 10))) (\<lambda>o_offset_horizontal.
     after (floor_truediv cellSize 2) (\<lambda>o_offset_vertical.
      then_do (emit [HideTurtle, Color colour])
       (if lower team = ''o'' then
          then_do
            (emit [PenUp,
                   Goto (margin + (cellSize * snd pos) + o_offset_horizontal)
                        (margin + (cellSize * fst pos) + o_offset_vertical),
                   PenDown])
            (after (floor_mul cellSize (float_literal (14 / 10))) (\<lambda>f.
              let steps = f - (o_offset_horizontal * 2); step_len = 2
              in draw_O_outer (nat steps) steps step_len))
        else if lower team = ''x'' then
          emit [PenUp,
                Goto (margin + (cellSize * snd pos) + x_offset)
                     (margin + (cellSize * fst pos) + x_offset),
                PenDown,
                Goto (margin + (cellSize * snd pos) + (cellSize - x_offset))
                     (margin + (cellSize * fst pos) + (cellSize - x_offset)),
                PenUp,
                Goto (margin + (cellSize * snd pos) + (cellSize - x_offset))
                     (margin + (cellSize * fst pos) + x_offset),
                PenDown,
                Goto (margin + (cellSize * snd pos) + x_offset)
                     (margin + (cellSize * fst pos) + (cellSize - x_offset))]
        else emit [])))))"

definition drawWin :: "int \<times> int \<Rightarrow> int \<times> int \<Rightarrow> int \<Rightarrow> string \<Rightarrow> int \<Rightarrow> outcome" where
  "drawWin startPos endPos sz colour margin =
     after (floor_truediv sz 3) (\<lambda>cellSize.
     after (floor_truediv cellSize 2) (\<lambda>offset.
      emit [HideTurtle, Color colour,
            PenUp,
            Goto (margin + (cellSize * snd startPos) + offset)
                 (margin + (cellSize * fst startPos) + offset),
            PenDown,
            Goto (margin + (cellSize * snd endPos) + offset)
                 (margin + (cellSize * fst endPos) + offset)]))"

fun drawBoard_loop ::
  "string list list \<Rightarrow> int list \<Rightarrow> int \<Rightarrow> (string \<rightharpoonup> string) \<Rightarrow> int \<Rightarrow> outcome" where
  "drawBoard_loop board [] sz xy_colour margin = emit []"
| "drawBoard_loop board (i # is) sz xy_colour margin =
     after (floor_truediv i (int (length board))) (\<lambda>row.
      let col = i mod int (length board) in
      after (py_index board row) (\<lambda>r.
      after (py_index r col) (\<lambda>team.
      after (py_lookup xy_colour team) (\<lambda>colour.
       then_do (drawMarker team (row, col) sz colour margin)
               (drawBoard_loop board is sz xy_colour margin)))))"

definition drawBoard ::
  "string list list \<Rightarrow> int \<Rightarrow> string \<Rightarrow> (string \<rightharpoonup> string) \<Rightarrow> int \<Rightarrow> bool \<Rightarrow> outcome" where
  "drawBoard board sz board_colour xy_colour margin newBoard =
     then_do
       (if length board = 0 \<or> newBoard then drawNewBoard sz board_colour margin else emit [])
       (if length board < 1 then emit []
        else if length (board ! 0) < 1 then emit []
        else drawBoard_loop board
               (py_range 0 (int (length board) * int (length (board ! 0))))
               sz xy_colour margin)"

type_synonym move = "int \<times> int \<times> string"

fun drawGame_loop ::
  "move list \<Rightarrow> int list \<Rightarrow> int \<Rightarrow> (string \<rightharpoonup> string) \<Rightarrow> int \<Rightarrow> outcome" where
  "drawGame_loop game [] sz xy_colour margin = emit []"
| "drawGame_loop game (i # is) sz xy_colour margin =
     after (py_index game i) (\<lambda>(row, col, team).
     after (py_lookup xy_colour team) (\<lambda>colour.
      then_do (drawMarker team (row, col) sz colour margin)
              (drawGame_loop game is sz xy_colour margin)))"

definition drawGame ::
  "move list \<Rightarrow> int \<Rightarrow> int \<Rightarrow> string \<Rightarrow> (string \<rightharpoonup> string) \<Rightarrow> int \<Rightarrow> bool \<Rightarrow> outcome" where
  "drawGame game numMoves sz board_colour xy_colour margin newBoard =
     then_do
       (if length game < 1 \<or> newBoard then drawNewBoard sz board_colour margin else emit [])
       (let firstMove = int (length game) - numMoves;
            firstMove = (if numMoves < 1 then 0 else firstMove);
            lastMove = int (length game)
        in drawGame_loop game (py_range firstMove lastMove) sz xy_colour margin)"

definition xy_default :: "string \<rightharpoonup> string" where
  \<comment> \<open>the default value of the parameter \<^verbatim>\<open>xy_colour\<close>\<close>
  "xy_default = [''X'' \<mapsto> ''red'', ''O'' \<mapsto> ''green'', '''' \<mapsto> ''white'']"

section \<open>Reference renderings\<close>

text \<open>
  What the specification says is drawn, written without indices, to compare the
  loops of \<^verbatim>\<open>drawBoard\<close> and \<^verbatim>\<open>drawGame\<close> with: for each move
  of a sequence, in order, the marker of its team at its (row, col), in the
  colour the mapping gives the team.
\<close>

fun render_moves :: "move list \<Rightarrow> int \<Rightarrow> (string \<rightharpoonup> string) \<Rightarrow> int \<Rightarrow> outcome" where
  "render_moves [] sz xy_colour margin = emit []"
| "render_moves ((row, col, team) # ms) sz xy_colour margin =
     after (py_lookup xy_colour team) (\<lambda>colour.
      then_do (drawMarker team (row, col) sz colour margin)
              (render_moves ms sz xy_colour margin))"

definition blank_board_if :: "bool \<Rightarrow> int \<Rightarrow> string \<Rightarrow> int \<Rightarrow> outcome" where
  \<comment> \<open>a blank board is drawn first exactly if the condition holds\<close>
  "blank_board_if c sz board_colour margin =
     (if c then drawNewBoard sz board_colour margin else emit [])"

definition line_segment :: "int \<times> int \<Rightarrow> int \<times> int \<Rightarrow> cmd list" where
  \<comment> \<open>one straight line: move there with the pen up, draw to the end point\<close>
  "line_segment p q = [PenUp, Goto (fst p) (snd p), PenDown, Goto (fst q) (snd q)]"

definition blank_board :: "int \<Rightarrow> string \<Rightarrow> int \<Rightarrow> int \<Rightarrow> cmd list" where
  \<comment> \<open>the grid of the specification, for a given cell size\<close>
  "blank_board sz colour margin cellSize =
     [InitializeTurtle 10 (sz + 2 * margin, sz + 2 * margin), HideTurtle, Color colour]
     @ line_segment (margin + cellSize, margin) (margin + cellSize, margin + 3 * cellSize)
     @ line_segment (margin + 2 * cellSize, margin) (margin + 2 * cellSize, margin + 3 * cellSize)
     @ line_segment (margin, margin + cellSize) (margin + 3 * cellSize, margin + cellSize)
     @ line_segment (margin, margin + 2 * cellSize) (margin + 3 * cellSize, margin + 2 * cellSize)"

definition cell_centre :: "int \<Rightarrow> int \<Rightarrow> int \<times> int \<Rightarrow> int \<times> int" where
  \<comment> \<open>the centre of the cell \<open>pos = (row, col)\<close>, as (x, y)\<close>
  "cell_centre cellSize margin pos =
     (margin + cellSize * snd pos + cellSize div 2, margin + cellSize * fst pos + cellSize div 2)"



section \<open>The binary64 model\<close>

text \<open>
  The exponent that \<open>fl\<close> takes the spacing of the floats from is the right
  one: \<open>binexp q\<close> is the \<open>e\<close> with \<open>2^e \<le> |q| < 2^(e+1)\<close>.
\<close>

lemma binexp_bounds:
  assumes "q \<noteq> 0"
  shows "pow2 (binexp q) \<le> \<bar>q\<bar> \<and> \<bar>q\<bar> < pow2 (binexp q + 1)"
proof (cases "1 \<le> \<bar>q\<bar>")
  case True
  define n where "n = \<lfloor>\<bar>q\<bar>\<rfloor>"
  have n1: "1 \<le> n" using True by (simp add: n_def le_floor_iff)
  then have bl: "1 \<le> bitlen n" by (simp add: bitlen_alt_def)
  from bitlen_bounds [of n] n1
  have lo: "2 ^ nat (bitlen n - 1) \<le> n" and hi: "n < 2 ^ nat (bitlen n)" by simp_all
  have "(2::rat) ^ nat (bitlen n - 1) \<le> of_int n"
    using lo by (simp only: numeral_power_le_of_int_cancel_iff)
  moreover have "of_int n \<le> \<bar>q\<bar>" by (simp add: n_def)
  ultimately have a: "(2::rat) ^ nat (bitlen n - 1) \<le> \<bar>q\<bar>" by (rule order_trans)
  have "n + 1 \<le> 2 ^ nat (bitlen n)" using hi by simp
  then have "(of_int (n + 1) :: rat) \<le> 2 ^ nat (bitlen n)"
    by (simp only: of_int_le_numeral_power_cancel_iff)
  moreover have "\<bar>q\<bar> < of_int (n + 1)" unfolding n_def by linarith
  ultimately have b: "\<bar>q\<bar> < (2::rat) ^ nat (bitlen n)" by (rule less_le_trans [rotated])
  show ?thesis
    using True a b bl by (simp add: binexp_def pow2_def n_def [symmetric])
next
  case False
  define c where "c = \<lceil>1 / \<bar>q\<bar>\<rceil>"
  define k where "k = bitlen (c - 1)"
  have q: "0 < \<bar>q\<bar>" "\<bar>q\<bar> < 1" using assms False by simp_all
  then have r1: "1 < 1 / \<bar>q\<bar>" by (simp add: field_simps)
  then have c2: "2 \<le> c" unfolding c_def by (simp add: le_ceiling_iff)
  then have k1: "1 \<le> k" by (simp add: k_def bitlen_alt_def)
  from bitlen_bounds [of "c - 1"] c2
  have lo: "2 ^ nat (k - 1) \<le> c - 1" and hi: "c - 1 < 2 ^ nat k" by (simp_all add: k_def)
  have "1 / \<bar>q\<bar> \<le> of_int c" by (simp add: c_def)
  moreover have "c \<le> 2 ^ nat k" using hi by simp
  then have "(of_int c :: rat) \<le> 2 ^ nat k"
    by (simp only: of_int_le_numeral_power_cancel_iff)
  ultimately have "1 / \<bar>q\<bar> \<le> 2 ^ nat k" by (rule order_trans)
  then have a: "1 / 2 ^ nat k \<le> \<bar>q\<bar>" using q by (simp add: field_simps)
  have "of_int (c - 1) < 1 / \<bar>q\<bar>" unfolding c_def by linarith
  moreover have "(2::rat) ^ nat (k - 1) \<le> of_int (c - 1)"
    using lo by (simp only: numeral_power_le_of_int_cancel_iff)
  ultimately have "(2::rat) ^ nat (k - 1) < 1 / \<bar>q\<bar>" by (rule le_less_trans [rotated])
  then have b': "\<bar>q\<bar> < 1 / 2 ^ nat (k - 1)" using q by (simp add: field_simps)
  have b: "\<bar>q\<bar> < pow2 (- k + 1)"
  proof (cases "k = 1")
    case True
    then show ?thesis using q by (simp add: pow2_def)
  next
    case False
    then have "nat (- (- k + 1)) = nat (k - 1)" "\<not> 0 \<le> - k + 1" using k1 by simp_all
    then show ?thesis using b' by (simp add: pow2_def)
  qed
  have "pow2 (- k) = 1 / 2 ^ nat k" using k1 by (simp add: pow2_def)
  with a b False show ?thesis
    by (simp add: binexp_def c_def [symmetric] k_def [symmetric])
qed


section \<open>Binary64 division on the pixel range\<close>

lemma rhe_floor_le: "\<lfloor>y\<rfloor> \<le> round_half_even y"
  by (simp add: round_half_even_def Let_def)

lemma rhe_le: "of_int (round_half_even y) \<le> y + 1 / 2"
proof -
  have "of_int \<lfloor>y\<rfloor> \<le> y" by simp
  then show ?thesis
    unfolding round_half_even_def Let_def by (auto; linarith)
qed

lemma rhe_ge: "y - 1 / 2 \<le> of_int (round_half_even y)"
proof -
  have "y < of_int \<lfloor>y\<rfloor> + 1" by linarith
  then show ?thesis
    unfolding round_half_even_def Let_def by (auto; linarith)
qed

lemma rhe_of_int: "round_half_even (of_int n) = n"
  by (simp add: round_half_even_def)

lemma binexp_le_51:
  assumes "\<bar>q\<bar> < 2 ^ 52"
  shows "binexp q \<le> 51"
proof (cases "1 \<le> \<bar>q\<bar>")
  case True
  have "\<lfloor>\<bar>q\<bar>\<rfloor> < 2 ^ 52"
    using assms by (simp add: floor_less_iff)
  then have "bitlen \<lfloor>\<bar>q\<bar>\<rfloor> \<le> 52"
    by (simp add: bitlen_le_iff_power)
  with True show ?thesis by (simp add: binexp_def)
next
  case False
  have "0 \<le> bitlen (\<lceil>1 / \<bar>q\<bar>\<rceil> - 1)" by (rule bitlen_nonneg)
  with False show ?thesis by (simp add: binexp_def)
qed

lemma fl_small:
  assumes "q \<noteq> 0" and "\<bar>q\<bar> < 2 ^ 52"
  shows "\<exists>j. 1 \<le> j \<and> fl q = Finite (of_int (round_half_even (q * 2 ^ j)) / 2 ^ j)"
proof -
  define E where "E = max (binexp q) (- 1022)"
  define j where "j = nat (52 - E)"
  have E: "E \<le> 51" using binexp_le_51 [OF assms(2)] by (simp add: E_def)
  then have j: "1 \<le> j" by (simp add: j_def)
  have u: "pow2 (E - 52) = 1 / 2 ^ j"
    using E by (simp add: pow2_def j_def)
  let ?m = "round_half_even (q * 2 ^ j)"
  let ?r = "(of_int ?m :: rat) / 2 ^ j"
  have P: "(1::rat) \<le> 2 ^ j" by (rule one_le_power) simp
  have "\<bar>of_int ?m :: rat\<bar> \<le> \<bar>q * 2 ^ j\<bar> + 1 / 2"
    using rhe_le [of "q * 2 ^ j"] rhe_ge [of "q * 2 ^ j"] by linarith
  also have "\<dots> = \<bar>q\<bar> * 2 ^ j + 1 / 2" by (simp add: abs_mult)
  also have "\<dots> \<le> \<bar>q\<bar> * 2 ^ j + 2 ^ j" using P by linarith
  also have "\<dots> = (\<bar>q\<bar> + 1) * 2 ^ j" by (simp add: algebra_simps)
  finally have "\<bar>of_int ?m :: rat\<bar> / 2 ^ j \<le> \<bar>q\<bar> + 1"
    by (simp add: divide_le_eq)
  then have "\<bar>?r\<bar> \<le> \<bar>q\<bar> + 1" by (simp add: abs_divide del: of_int_abs)
  also have "\<dots> < 2 ^ 1024"
  proof -
    have "(2::rat) ^ 52 + 1 \<le> 2 ^ 1024" by simp
    with assms(2) show ?thesis by linarith
  qed
  finally have "\<not> 2 ^ 1024 \<le> \<bar>?r\<bar>" by simp
  then have "fl q = Finite ?r"
    using assms(1) u unfolding fl_def Let_def E_def [symmetric] by simp
  with j show ?thesis by blast
qed

lemma floor_fl_div:
  fixes a b :: int
  assumes b: "0 < b" "b \<le> 3" and a: "\<bar>a\<bar> < b * 2 ^ 52"
  shows "\<exists>r. fl (of_int a / of_int b) = Finite r \<and> \<lfloor>r\<rfloor> = a div b"
proof (cases "a = 0")
  case True
  then show ?thesis by (simp add: fl_def)
next
  case False
  define q :: rat where "q = of_int a / of_int b"
  define k where "k = a div b"
  have q0: "q \<noteq> 0" using False b by (simp add: q_def)
  have "\<bar>q\<bar> = of_int \<bar>a\<bar> / of_int b" using b by (simp add: q_def abs_divide)
  also have "\<dots> < 2 ^ 52"
  proof -
    have "(of_int \<bar>a\<bar> :: rat) < of_int (b * 2 ^ 52)" using a by (simp only: of_int_less_iff)
    then show ?thesis using b by (simp add: divide_less_eq mult.commute)
  qed
  finally have qs: "\<bar>q\<bar> < 2 ^ 52" .
  from fl_small [OF q0 qs] obtain j where j: "1 \<le> j"
    and flq: "fl q = Finite (of_int (round_half_even (q * 2 ^ j)) / 2 ^ j)" by blast
  define P :: rat where "P = 2 ^ j"
  define m where "m = round_half_even (q * P)"
  have P2: "2 \<le> P"
    using power_increasing [of 1 j "2::rat"] j by (simp add: P_def)
  have kfl: "k = \<lfloor>q\<rfloor>" by (simp add: k_def q_def floor_divide_of_int_eq)
  have kq: "of_int k \<le> q" by (simp add: kfl)
  have "a mod b \<le> b - 1" using b pos_mod_bound [of b a] by linarith
  moreover have "a = b * k + a mod b" by (simp add: k_def)
  ultimately have "a \<le> b * k + (b - 1)" by linarith
  then have "(of_int a :: rat) \<le> of_int (b * k + (b - 1))" by (simp only: of_int_le_iff)
  then have "q * of_int b \<le> of_int k * of_int b + of_int b - 1"
    using b by (simp add: q_def algebra_simps)
  moreover have B0: "(0 :: rat) < of_int b" using b by simp
  ultimately have "q \<le> of_int k + 1 - 1 / of_int b"
    by (simp add: field_simps)
  moreover have "(of_int b :: rat) \<le> 3" using b by (simp add: of_int_le_numeral_iff)
  then have "(1 :: rat) / 3 \<le> 1 / of_int b" using B0 by (simp add: field_simps)
  ultimately have qk: "q \<le> of_int k + 2 / 3" by linarith
  have lower: "of_int k * P \<le> of_int m"
  proof -
    have "of_int k * P \<le> q * P" using kq P2 by (simp add: mult_right_mono)
    moreover have "of_int k * P = of_int (k * 2 ^ j)" by (simp add: P_def)
    ultimately have "k * 2 ^ j \<le> \<lfloor>q * P\<rfloor>" by (simp add: le_floor_iff)
    also have "\<dots> \<le> m" unfolding m_def by (rule rhe_floor_le)
    finally have "(of_int (k * 2 ^ j) :: rat) \<le> of_int m" by (simp only: of_int_le_iff)
    then show ?thesis by (simp add: P_def)
  qed
  have upper: "of_int m < (of_int k + 1) * P"
  proof -
    have "of_int m \<le> q * P + 1 / 2" unfolding m_def by (rule rhe_le)
    also have "q * P \<le> (of_int k + 2 / 3) * P" using qk P2 by (simp add: mult_right_mono)
    finally have "of_int m \<le> (of_int k + 2 / 3) * P + 1 / 2" by simp
    also have "\<dots> < (of_int k + 1) * P" using P2 by (simp add: algebra_simps)
    finally show ?thesis .
  qed
  have "\<lfloor>of_int m / P\<rfloor> = k"
  proof (rule floor_unique)
    show "of_int k \<le> of_int m / P" using lower P2 by (simp add: le_divide_eq)
    show "of_int m / P < of_int k + 1" using upper P2 by (simp add: divide_less_eq)
  qed
  with flq show ?thesis by (simp add: q_def k_def m_def P_def)
qed

lemma floor_truediv_small:
  assumes "0 < b" "b \<le> 3" "\<bar>a\<bar> < b * 2 ^ 52"
  shows "floor_truediv a b = Inr (a div b)"
proof -
  from floor_fl_div [OF assms] obtain r
    where "fl (of_int a / of_int b) = Finite r" "\<lfloor>r\<rfloor> = a div b" by blast
  with assms(1) show ?thesis
    by (simp add: floor_truediv_def py_truediv_def math_floor_def)
qed

lemma fl_finite:
  assumes "\<bar>q\<bar> < 2 ^ 52"
  shows "\<exists>r. fl q = Finite r \<and> \<bar>r\<bar> \<le> \<bar>q\<bar> + 1 / 4"
proof (cases "q = 0")
  case True
  then show ?thesis by (simp add: fl_def)
next
  case False
  from fl_small [OF False assms] obtain j where j: "1 \<le> j"
    and flq: "fl q = Finite (of_int (round_half_even (q * 2 ^ j)) / 2 ^ j)" by blast
  define P :: rat where "P = 2 ^ j"
  define m where "m = round_half_even (q * P)"
  have P2: "2 \<le> P"
    using power_increasing [of 1 j "2::rat"] j by (simp add: P_def)
  have "\<bar>of_int m :: rat\<bar> \<le> \<bar>q * P\<bar> + 1 / 2"
    using rhe_le [of "q * P"] rhe_ge [of "q * P"] unfolding m_def by linarith
  also have "\<dots> = \<bar>q\<bar> * P + 1 / 2" using P2 by (simp add: abs_mult)
  also have "\<dots> \<le> \<bar>q\<bar> * P + P / 4" using P2 by simp
  also have "\<dots> = (\<bar>q\<bar> + 1 / 4) * P" by (simp add: algebra_simps)
  finally have bound: "\<bar>of_int m :: rat\<bar> / P \<le> \<bar>q\<bar> + 1 / 4"
    using P2 by (simp add: divide_le_eq)
  have absP: "\<bar>P\<bar> = P" using P2 by simp
  have "\<bar>(of_int m :: rat) / P\<bar> = \<bar>of_int m\<bar> / P"
    by (simp only: abs_divide absP)
  also note bound
  finally have "\<bar>(of_int m :: rat) / P\<bar> \<le> \<bar>q\<bar> + 1 / 4" .
  with flq show ?thesis by (simp add: m_def P_def)
qed

lemma py_float_small:
  assumes "\<bar>n\<bar> < 2 ^ 52"
  shows "py_float n = Inr (of_int n)"
proof (cases "n = 0")
  case True
  then show ?thesis by (simp add: py_float_def fl_def)
next
  case False
  have "(of_int \<bar>n\<bar> :: rat) < of_int (2 ^ 52)" using assms by (simp only: of_int_less_iff)
  then have small: "\<bar>of_int n :: rat\<bar> < 2 ^ 52" by simp
  have "(of_int n :: rat) \<noteq> 0" using False by simp
  from fl_small [OF this small] obtain j where
    flq: "fl (of_int n) = Finite (of_int (round_half_even (of_int n * 2 ^ j)) / 2 ^ j)" by blast
  have "(of_int n :: rat) * 2 ^ j = of_int (n * 2 ^ j)" by simp
  then have "round_half_even (of_int n * 2 ^ j) = n * 2 ^ j"
    by (simp only: rhe_of_int)
  with flq show ?thesis by (simp add: py_float_def)
qed

lemma floor_mul_ok:
  assumes n: "\<bar>n\<bar> < 2 ^ 52" and q: "\<bar>q\<bar> \<le> 1 / 2"
  shows "\<exists>v. floor_mul n (float_literal q) = Inr v"
proof -
  have "(1::rat) / 2 < 2 ^ 52" by simp
  then have "\<bar>q\<bar> < 2 ^ 52" using q by linarith
  from fl_finite [OF this] obtain c where c: "fl q = Finite c" "\<bar>c\<bar> \<le> \<bar>q\<bar> + 1 / 4" by blast
  then have c1: "\<bar>c\<bar> \<le> 1" using q by linarith
  have lit: "float_literal q = c" using c by (simp add: float_literal_def)
  have "(of_int \<bar>n\<bar> :: rat) < of_int (2 ^ 52)" using n by (simp only: of_int_less_iff)
  then have nn: "\<bar>of_int n :: rat\<bar> < 2 ^ 52" by simp
  have "\<bar>of_int n * c\<bar> = \<bar>of_int n :: rat\<bar> * \<bar>c\<bar>" by (simp add: abs_mult del: of_int_abs)
  also have "\<dots> \<le> \<bar>of_int n :: rat\<bar> * 1"
    by (rule mult_left_mono) (use c1 in simp_all)
  also have "\<dots> < 2 ^ 52" using nn by simp
  finally have "\<bar>of_int n * c\<bar> < 2 ^ 52" .
  from fl_finite [OF this] obtain r where "fl (of_int n * c) = Finite r" by blast
  then show ?thesis
    by (simp add: floor_mul_def py_float_small [OF n] py_mul_def math_floor_def lit)
qed

lemma cellSize_small:
  fixes sz :: int
  assumes "\<bar>sz\<bar> < 2 ^ 53"
  shows "\<bar>sz div 3\<bar> < 2 ^ 52"
  using assms by (simp add: abs_less_iff) linarith

text \<open>
  The rounding is visible at ordinary sizes: for a cell of 45 pixels (a board of
  135) \<^verbatim>\<open>math.floor(1.4 * cellSize)\<close> is 62, as in Python, where the exact
  product is 63; an O is then drawn in 44 steps.
\<close>

lemma bitlen_eqI:
  assumes "2 ^ k \<le> x" "x < 2 ^ Suc k"
  shows "bitlen x = int k + 1"
proof -
  have "bitlen x \<le> int k + 1"
    using assms(2) by (simp add: bitlen_le_iff_power nat_add_distrib)
  moreover have "\<not> bitlen x \<le> int k"
    using assms(1) by (simp add: bitlen_le_iff_power)
  ultimately show ?thesis by linarith
qed

lemma float_literal_1_4:
  "float_literal (14 / 10) = 3152519739159347 / 2251799813685248"
proof -
  have f: "\<lfloor>(7 :: rat) / 5\<rfloor> = 1"
    using floor_divide_of_int_eq [of 7 5, where ?'a = rat] by simp
  have "bitlen 1 = 1" using bitlen_eqI [of 0 1] by simp
  then have be: "binexp (7 / 5) = 0" by (simp add: binexp_def f)
  have fm: "\<lfloor>(31525197391593472 :: rat) / 5\<rfloor> = 6305039478318694"
    using floor_divide_of_int_eq [of 31525197391593472 5, where ?'a = rat] by simp
  have "round_half_even (7 / 5 / pow2 (- 52)) = 6305039478318694"
    by (simp add: pow2_def round_half_even_def Let_def fm)
  then have "fl (7 / 5) = Finite (3152519739159347 / 2251799813685248)"
    by (simp add: fl_def be Let_def) (simp add: pow2_def)
  then show ?thesis by (simp add: float_literal_def)
qed

lemma floor_mul_45_1_4: "floor_mul 45 (float_literal (14 / 10)) = Inr 62"
proof -
  let ?q = "141863388262170615 / 2251799813685248 :: rat"
  have f: "\<lfloor>?q\<rfloor> = 62"
    using floor_divide_of_int_eq [of 141863388262170615 2251799813685248, where ?'a = rat]
    by simp
  have "bitlen 62 = 6" using bitlen_eqI [of 5 62] by simp
  then have be: "binexp ?q = 5" by (simp add: binexp_def f)
  have fm: "\<lfloor>(141863388262170615 :: rat) / 16\<rfloor> = 8866461766385663"
    using floor_divide_of_int_eq [of 141863388262170615 16, where ?'a = rat] by simp
  have "round_half_even (?q / pow2 (- 47)) = 8866461766385663"
    by (simp add: pow2_def round_half_even_def Let_def fm)
  then have flq: "fl ?q = Finite (8866461766385663 / 140737488355328)"
    by (simp add: fl_def be Let_def) (simp add: pow2_def)
  have fr: "\<lfloor>(8866461766385663 :: rat) / 140737488355328\<rfloor> = 62"
    using floor_divide_of_int_eq [of 8866461766385663 140737488355328, where ?'a = rat]
    by simp
  have lit: "float_literal (7 / 5) = 3152519739159347 / 2251799813685248"
    using float_literal_1_4 by simp
  have prod: "45 * float_literal (7 / 5) = ?q" unfolding lit by simp
  show ?thesis
    by (simp add: floor_mul_def py_float_small py_mul_def math_floor_def prod flq fr)
qed

section \<open>Sequencing and strings\<close>

lemma then_do_emit_Nil [simp]: "then_do (emit []) x = x"
  by (simp add: then_do_def emit_def)

lemma then_do_emit_Nil2 [simp]: "then_do x (emit []) = x"
  by (cases x) (simp add: then_do_def emit_def split: option.splits)

lemma then_do_raise [simp]: "then_do (raise e) x = raise e"
  by (simp add: then_do_def raise_def)

lemma then_do_emit_emit: "then_do (emit a) (emit b) = emit (a @ b)"
  by (simp add: then_do_def emit_def)

lemma then_do_assoc: "then_do (then_do a b) c = then_do a (then_do b c)"
  by (cases a; cases b; cases c) (simp add: then_do_def split: option.splits)

lemma after_Inr [simp]: "after (Inr v) f = f v"
  by (simp add: after_def)

lemma after_Inl [simp]: "after (Inl e) f = raise e"
  by (simp add: after_def)

lemma lower_char_idem: "lower_char (lower_char c) = lower_char c"
proof -
  have "of_char c < (256::nat)" by simp
  then show ?thesis
    unfolding lower_char_def Let_def by auto
qed

lemma lower_idem: "lower (lower s) = lower s"
  by (simp add: lower_def lower_char_idem)

lemma lower_x: "lower ''X'' = ''x''" "lower ''x'' = ''x''"
  by code_simp+

lemma drawMarker_cong_lower:
  "lower t = lower t' \<Longrightarrow>
   drawMarker t pos sz colour margin = drawMarker t' pos sz colour margin"
  by (simp only: drawMarker_def)

section \<open>Markers\<close>

lemma drawMarker_blank:
  assumes "lower team \<noteq> ''o''" "lower team \<noteq> ''x''" "\<bar>sz\<bar> < 2 ^ 53"
  shows "drawMarker team pos sz colour margin = emit [HideTurtle, Color colour]"
proof -
  have cs: "floor_truediv sz 3 = Inr (sz div 3)"
    using assms(3) by (intro floor_truediv_small) simp_all
  have small: "\<bar>sz div 3\<bar> < 2 ^ 52" using assms(3) by (rule cellSize_small)
  obtain x where x: "floor_mul (sz div 3) (float_literal (2 / 10)) = Inr x"
    using floor_mul_ok [OF small, of "2 / 10"] by auto
  have half: "floor_truediv (sz div 3) 2 = Inr (sz div 3 div 2)"
    using small by (intro floor_truediv_small) simp_all
  show ?thesis
    unfolding drawMarker_def cs x half after_Inr using assms(1,2) by simp
qed

lemma drawMarker_x_ok:
  assumes "lower team = ''x''" "\<bar>sz\<bar> < 2 ^ 53"
  shows "snd (drawMarker team pos sz colour margin) = None"
proof -
  have cs: "floor_truediv sz 3 = Inr (sz div 3)"
    using assms(2) by (intro floor_truediv_small) simp_all
  have small: "\<bar>sz div 3\<bar> < 2 ^ 52" using assms(2) by (rule cellSize_small)
  obtain x where x: "floor_mul (sz div 3) (float_literal (2 / 10)) = Inr x"
    using floor_mul_ok [OF small, of "2 / 10"] by auto
  have half: "floor_truediv (sz div 3) 2 = Inr (sz div 3 div 2)"
    using small by (intro floor_truediv_small) simp_all
  show ?thesis
    unfolding drawMarker_def cs x half after_Inr using assms(1)
    by (simp add: then_do_def emit_def)
qed

section \<open>The loops against the reference renderings\<close>

lemma py_index_wrap:
  assumes "- int (length xs) \<le> i" "i < int (length xs)"
  shows "py_index xs i = Inr (xs ! nat (if i < 0 then int (length xs) + i else i))"
  using assms by (simp add: py_index_def)

lemma py_index_out:
  assumes "i < - int (length xs) \<or> int (length xs) \<le> i"
  shows "py_index xs i = Inl IndexError"
  using assms by (auto simp: py_index_def)

lemma drawGame_loop_render:
  assumes "\<forall>i \<in> set is. - int (length game) \<le> i \<and> i < int (length game)"
  shows "drawGame_loop game is sz xy_colour margin =
         render_moves (map (\<lambda>i. game ! nat (if i < 0 then int (length game) + i else i)) is)
           sz xy_colour margin"
  using assms
proof (induction "is")
  case Nil
  show ?case by simp
next
  case (Cons i "is")
  define m where "m = game ! nat (if i < 0 then int (length game) + i else i)"
  have idx: "py_index game i = Inr m"
    using Cons.prems by (simp add: py_index_wrap m_def)
  obtain row col team where m: "m = (row, col, team)" by (cases m)
  have IH: "drawGame_loop game is sz xy_colour margin =
      render_moves (map (\<lambda>i. game ! nat (if i < 0 then int (length game) + i else i)) is)
        sz xy_colour margin"
    using Cons by simp
  show ?case
    by (simp only: drawGame_loop.simps list.map idx after_Inr m [symmetric] m_def [symmetric])
       (simp add: m IH)
qed

lemma map_nth_upto_drop:
  assumes "a \<le> length xs"
  shows "map (\<lambda>i. xs ! nat i) [int a..int (length xs) - 1] = drop a xs"
proof (rule nth_equalityI)
  show "length (map (\<lambda>i. xs ! nat i) [int a..int (length xs) - 1]) = length (drop a xs)"
    using assms by simp
next
  fix k assume "k < length (map (\<lambda>i. xs ! nat i) [int a..int (length xs) - 1])"
  then have k: "k < length xs - a" using assms by simp
  then have "[int a..int (length xs) - 1] ! k = int a + int k"
    by (intro nth_upto) linarith
  then show "map (\<lambda>i. xs ! nat i) [int a..int (length xs) - 1] ! k = drop a xs ! k"
    using k assms by (simp add: nat_add_distrib)
qed

lemma map_nth_upto_neg:
  assumes "m \<le> length xs"
  shows "map (\<lambda>i. xs ! nat (int (length xs) + i)) [- int m..- 1] = drop (length xs - m) xs"
proof (rule nth_equalityI)
  show "length (map (\<lambda>i. xs ! nat (int (length xs) + i)) [- int m..- 1])
        = length (drop (length xs - m) xs)"
    using assms by simp
next
  fix k assume "k < length (map (\<lambda>i. xs ! nat (int (length xs) + i)) [- int m..- 1])"
  then have k: "k < m" by simp
  then have "[- int m..- 1] ! k = - int m + int k"
    by (intro nth_upto) linarith
  moreover have "nat (int (length xs) + (- int m + int k)) = length xs - m + k"
    using assms k by linarith
  ultimately show "map (\<lambda>i. xs ! nat (int (length xs) + i)) [- int m..- 1] ! k
      = drop (length xs - m) xs ! k"
    using k assms by simp
qed

lemma drawGame_loop_first_out:
  assumes "i < - int (length game) \<or> int (length game) \<le> i" "i \<le> j"
  shows "drawGame_loop game [i..j] sz xy_colour margin = raise IndexError"
  using assms by (simp add: upto_rec1 py_index_out)

lemma drawGame_render:
  assumes "numMoves \<le> int (length game)"
  shows "drawGame game numMoves sz board_colour xy_colour margin newBoard =
     then_do (blank_board_if (game = [] \<or> newBoard) sz board_colour margin)
       (render_moves (if numMoves < 1 then game else drop (length game - nat numMoves) game)
          sz xy_colour margin)"
proof -
  define a where "a = (if numMoves < 1 then 0 else length game - nat numMoves)"
  have a: "a \<le> length game" by (simp add: a_def)
  have first: "(if numMoves < 1 then 0 else int (length game) - numMoves) = int a"
    using assms by (simp add: a_def)
  have "\<forall>i \<in> set [int a..int (length game) - 1]. - int (length game) \<le> i \<and> i < int (length game)"
    by auto
  then have "drawGame_loop game [int a..int (length game) - 1] sz xy_colour margin =
      render_moves (map (\<lambda>i. game ! nat (if i < 0 then int (length game) + i else i))
         [int a..int (length game) - 1]) sz xy_colour margin"
    by (rule drawGame_loop_render)
  also have "map (\<lambda>i. game ! nat (if i < 0 then int (length game) + i else i))
         [int a..int (length game) - 1] = map (\<lambda>i. game ! nat i) [int a..int (length game) - 1]"
    by (rule map_cong) auto
  also have "\<dots> = drop a game" using a by (rule map_nth_upto_drop)
  finally have loop: "drawGame_loop game [int a..int (length game) - 1] sz xy_colour margin =
      render_moves (drop a game) sz xy_colour margin" .
  have "drop a game = (if numMoves < 1 then game else drop (length game - nat numMoves) game)"
    by (simp add: a_def)
  with loop show ?thesis
    by (simp add: drawGame_def Let_def py_range_def first blank_board_if_def)
qed

section \<open>The blank board\<close>

lemma drawNewBoard_cells:
  "drawNewBoard sz colour margin =
     after (floor_truediv sz 3) (\<lambda>cellSize. emit (blank_board sz colour margin cellSize))"
  by (simp add: drawNewBoard_def blank_board_def line_segment_def Let_def algebra_simps)

text \<open>
  Beyond the pixel range the float quotient and the integer quotient part: the
  first size at which \<^verbatim>\<open>math.floor(size / 3)\<close> is not the floor of
  \<open>size / 3\<close> is \<open>3 * 2^52 + 2\<close>.
\<close>

lemma bitlen_2_52: "bitlen 4503599627370496 = 53"
proof -
  have "bitlen 1 = 1" by (simp add: bitlen_alt_def)
  then show ?thesis using bitlen_pow2 [of 1 52] by simp
qed

lemma floor_large: "\<lfloor>(13510798882111490 :: rat) / 3\<rfloor> = 4503599627370496"
  using floor_divide_of_int_eq [of 13510798882111490 3, where ?'a = rat] by simp

lemma floor_truediv_large: "floor_truediv 13510798882111490 3 = Inr 4503599627370497"
proof -
  have be: "binexp (13510798882111490 / 3) = 52"
    by (simp add: binexp_def floor_large bitlen_2_52)
  have "round_half_even (13510798882111490 / 3) = 4503599627370497"
    by (simp add: round_half_even_def Let_def floor_large)
  then have "fl (13510798882111490 / 3) = Finite 4503599627370497"
    by (simp add: fl_def be pow2_def Let_def)
  then show ?thesis
    by (simp add: floor_truediv_def py_truediv_def math_floor_def)
qed

section \<open>Boards of 3 by 3 cells and unknown teams\<close>

lemma lower_empty: "lower [] = []"
  by (simp add: lower_def)

lemma upto_0_8: "[0..8::int] = [0, 1, 2, 3, 4, 5, 6, 7, 8]"
  by (simp add: upto_rec1)

lemma floor_truediv_3:
  "\<bar>i\<bar> < 9 \<Longrightarrow> floor_truediv i 3 = Inr (i div 3)"
  by (rule floor_truediv_small) simp_all

lemma drawBoard_3x3:
  "drawBoard [[a, b, c], [d, e, f], [g, h, i]] sz board_colour xy_colour margin newBoard =
     then_do (blank_board_if newBoard sz board_colour margin)
       (render_moves [(0, 0, a), (0, 1, b), (0, 2, c), (1, 0, d), (1, 1, e), (1, 2, f),
                      (2, 0, g), (2, 1, h), (2, 2, i)] sz xy_colour margin)"
  by (simp add: drawBoard_def blank_board_if_def py_range_def upto_0_8 floor_truediv_3
      py_index_def Let_def)

lemma then_do_after: "then_do (after x f) b = after x (\<lambda>v. then_do (f v) b)"
  by (cases x) simp_all

lemma render_moves_KeyError:
  assumes "xy_colour team = None"
  shows "render_moves (pre @ (row, col, team) # post) sz xy_colour margin =
         then_do (render_moves pre sz xy_colour margin) (raise KeyError)"
proof (induction pre)
  case Nil
  show ?case using assms by (simp add: py_lookup_def)
next
  case (Cons m pre)
  obtain r c t where m: "m = (r, c, t)" by (cases m)
  show ?case by (simp add: m Cons.IH then_do_after then_do_assoc)
qed

lemma then_do_raises: "snd (then_do x (then_do y (raise e))) \<noteq> None"
  by (cases x; cases y) (auto simp: then_do_def raise_def split: option.splits)

lemma render_moves_blank:
  assumes "xy_colour '''' = Some colour" "\<bar>sz\<bar> < 2 ^ 53"
  shows "render_moves (map (\<lambda>p. (fst p, snd p, '''')) ps) sz xy_colour margin =
         emit (concat (replicate (length ps) [HideTurtle, Color colour]))"
proof (induction ps)
  case Nil
  show ?case by simp
next
  case (Cons p ps)
  have "drawMarker '''' (fst p, snd p) sz colour margin = emit [HideTurtle, Color colour]"
    using assms(2) by (intro drawMarker_blank) (simp_all add: lower_def)
  then show ?case
    using assms(1) by (simp add: py_lookup_def Cons.IH then_do_emit_emit)
qed

section \<open>Renderings that run to their end\<close>




lemma snd_emit [simp]: "snd (emit cs) = None"
  by (simp add: emit_def)









text \<open>
  The markers of the default board, evaluated: \<^verbatim>\<open>math.floor(60 * 0.2)\<close> is 12,
  and an X in the cell (row, col) is the two diagonals between
  \<open>(30 + 60 * col + 12, 30 + 60 * row + 12)\<close> and
  \<open>(30 + 60 * col + 48, 30 + 60 * row + 48)\<close>.
\<close>

lemma float_literal_0_2:
  "float_literal (2 / 10) = 3602879701896397 / 18014398509481984"
proof -
  have "bitlen 4 = 3" using bitlen_eqI [of 2 4] by simp
  then have be: "binexp (1 / 5) = - 3" by (simp add: binexp_def)
  have fm: "\<lfloor>(36028797018963968 :: rat) / 5\<rfloor> = 7205759403792793"
    using floor_divide_of_int_eq [of 36028797018963968 5, where ?'a = rat] by simp
  have "round_half_even (1 / 5 / pow2 (- 55)) = 7205759403792794"
    by (simp add: pow2_def round_half_even_def Let_def fm)
  then have "fl (1 / 5) = Finite (3602879701896397 / 18014398509481984)"
    by (simp add: fl_def be Let_def) (simp add: pow2_def)
  then show ?thesis by (simp add: float_literal_def)
qed

lemma floor_mul_60_0_2: "floor_mul 60 (float_literal (2 / 10)) = Inr 12"
proof -
  let ?q = "54043195528445955 / 4503599627370496 :: rat"
  have f: "\<lfloor>?q\<rfloor> = 12"
    using floor_divide_of_int_eq [of 54043195528445955 4503599627370496, where ?'a = rat]
    by simp
  have "bitlen 12 = 4" using bitlen_eqI [of 3 12] by simp
  then have be: "binexp ?q = 3" by (simp add: binexp_def f)
  have fm: "\<lfloor>(54043195528445955 :: rat) / 8\<rfloor> = 6755399441055744"
    using floor_divide_of_int_eq [of 54043195528445955 8, where ?'a = rat] by simp
  have "round_half_even (?q / pow2 (- 49)) = 6755399441055744"
    by (simp add: pow2_def round_half_even_def Let_def fm)
  then have flq: "fl ?q = Finite 12"
    by (simp add: fl_def be Let_def) (simp add: pow2_def)
  have lit: "float_literal (1 / 5) = 3602879701896397 / 18014398509481984"
    using float_literal_0_2 by simp
  have prod: "60 * float_literal (1 / 5) = ?q" unfolding lit by simp
  show ?thesis
    by (simp add: floor_mul_def py_float_small py_mul_def math_floor_def prod flq)
qed

lemma drawMarker_X_180:
  "drawMarker ''X'' (row, col) 180 colour 30 =
     emit [HideTurtle, Color colour,
           PenUp, Goto (30 + 60 * col + 12) (30 + 60 * row + 12),
           PenDown, Goto (30 + 60 * col + 48) (30 + 60 * row + 48),
           PenUp, Goto (30 + 60 * col + 48) (30 + 60 * row + 12),
           PenDown, Goto (30 + 60 * col + 12) (30 + 60 * row + 48)]"
proof -
  have cs: "floor_truediv 180 3 = Inr 60" by (simp add: floor_truediv_small)
  have half: "floor_truediv 60 2 = Inr 30" by (simp add: floor_truediv_small)
  show ?thesis
    unfolding drawMarker_def cs after_Inr floor_mul_60_0_2 half
    by (simp add: lower_x then_do_emit_emit)
qed

lemma drawMarker_empty_180:
  "drawMarker '''' pos 180 colour 30 = emit [HideTurtle, Color colour]"
  by (rule drawMarker_blank) (simp_all add: lower_empty)

text \<open>
  What the loop of \<^verbatim>\<open>drawGame\<close> does between \<open>L\<close> and \<open>2 * L\<close>: the
  negative indices select from the end of the list.
\<close>

lemma drawGame_wrap_around:
  assumes "int (length game) < numMoves" "numMoves \<le> 2 * int (length game)"
  shows "drawGame game numMoves sz board_colour xy_colour margin newBoard =
     then_do (blank_board_if newBoard sz board_colour margin)
       (render_moves (drop (2 * length game - nat numMoves) game @ game) sz xy_colour margin)
     \<and> length (drop (2 * length game - nat numMoves) game @ game) = nat numMoves"
proof -
  define L where "L = length game"
  define m where "m = nat numMoves - L"
  have m: "m \<le> L" "0 < m" "numMoves = int L + int m" "0 < L"
    using assms by (auto simp: m_def L_def)
  have split: "[int L - numMoves..int L - 1] = [- int m..- 1] @ [0..int L - 1]"
    using m upto_split1 [of "- int m" 0 "int L - 1"] by simp
  have rng: "\<forall>i \<in> set [int L - numMoves..int L - 1]. - int (length game) \<le> i \<and> i < int (length game)"
    using m by (auto simp: L_def)
  have wrapped: "map (\<lambda>i. game ! nat (if i < 0 then int (length game) + i else i))
         [int L - numMoves..int L - 1]
       = map (\<lambda>i. game ! nat (int (length game) + i)) [- int m..- 1]
         @ map (\<lambda>i. game ! nat i) [int 0..int (length game) - 1]"
    unfolding split map_append by (intro arg_cong2 [where f = append] map_cong) (auto simp: L_def)
  have neg: "map (\<lambda>i. game ! nat (int (length game) + i)) [- int m..- 1]
       = drop (length game - m) game"
    using m(1) unfolding L_def by (rule map_nth_upto_neg)
  have pos: "map (\<lambda>i. game ! nat i) [int 0..int (length game) - 1] = drop 0 game"
    by (rule map_nth_upto_drop) simp
  have "drawGame_loop game [int L - numMoves..int L - 1] sz xy_colour margin =
      render_moves (map (\<lambda>i. game ! nat (if i < 0 then int (length game) + i else i))
         [int L - numMoves..int L - 1]) sz xy_colour margin"
    using rng by (rule drawGame_loop_render)
  then have loop: "drawGame_loop game [int L - numMoves..int L - 1] sz xy_colour margin =
      render_moves (drop (length game - m) game @ game) sz xy_colour margin"
    by (simp only: wrapped neg pos drop_0)
  have idx: "length game - m = 2 * length game - nat numMoves"
    unfolding m_def L_def using assms by linarith
  have "\<not> numMoves < 1" "\<not> length game < 1" using m assms by (auto simp: L_def)
  then have "drawGame game numMoves sz board_colour xy_colour margin newBoard =
     then_do (blank_board_if newBoard sz board_colour margin)
       (render_moves (drop (2 * length game - nat numMoves) game @ game) sz xy_colour margin)"
    using loop by (simp add: drawGame_def Let_def py_range_def blank_board_if_def L_def idx)
  moreover have "length (drop (2 * length game - nat numMoves) game @ game) = nat numMoves"
    using assms by simp
  ultimately show ?thesis by simp
qed

section \<open>Claims\<close>




text \<open>
  C2, as amended. For every margin and every size \<open>sz\<close> with
  \<open>|sz| < 3 * 2^52\<close>, \<^verbatim>\<open>drawNewBoard\<close> initialises the surface, sets the
  colour and draws exactly four segments, with \<open>cellSize = sz div 3\<close> (the floor
  of \<open>sz / 3\<close>): the vertical ones at \<open>x = margin + cellSize\<close> and
  \<open>x = margin + 2 * cellSize\<close>, from \<open>y = margin\<close> to
  \<open>y = margin + 3 * cellSize\<close>, then the horizontal ones at the same two
  values of \<open>y\<close>, from \<open>x = margin\<close> to \<open>x = margin + 3 * cellSize\<close>.
\<close>

theorem drawNewBoard_grid:
  assumes "\<bar>sz\<bar> < 3 * 2 ^ 52"
  shows "drawNewBoard sz colour margin = emit (blank_board sz colour margin (sz div 3))"
  using assms by (simp add: drawNewBoard_cells floor_truediv_small)

text \<open>The default board: size 180, margin 30, cells of 60 pixels.\<close>

theorem drawNewBoard_grid_witness:
  "\<bar>180 :: int\<bar> < 3 * 2 ^ 52 \<and>
   drawNewBoard 180 ''white'' 30 =
     emit ([InitializeTurtle 10 (240, 240), HideTurtle, Color ''white'']
           @ line_segment (90, 30) (90, 210) @ line_segment (150, 30) (150, 210)
           @ line_segment (30, 90) (210, 90) @ line_segment (30, 150) (210, 150))"
  using drawNewBoard_grid [of 180 "''white''" 30] by (simp add: blank_board_def)

text \<open>
  C2 as stated fails for sizes beyond the range in which the binary64 quotient
  \<^verbatim>\<open>size / 3\<close> floors to the integer quotient: at
  \<open>sz = 3 * 2^52 + 2\<close> the quotient \<open>2^52 + 2/3\<close> rounds to the float
  \<open>2^52 + 1\<close>, so \<^verbatim>\<open>math.floor(size / 3)\<close> is \<open>4503599627370497\<close>,
  one more than the floor of \<open>sz / 3\<close>, and the lines are drawn with that
  cell size.
\<close>

theorem drawNewBoard_grid_counterexample:
  "drawNewBoard 13510798882111490 ''white'' 30
     = emit (blank_board 13510798882111490 ''white'' 30 4503599627370497) \<and>
   drawNewBoard 13510798882111490 ''white'' 30
     \<noteq> emit (blank_board 13510798882111490 ''white'' 30 (13510798882111490 div 3))"
  by (simp add: drawNewBoard_cells floor_truediv_large emit_def blank_board_def line_segment_def)

text \<open>
  C3, as amended. For every pair of cells, every margin and every size \<open>sz\<close>
  with \<open>|sz| < 3 * 2^52\<close>, \<^verbatim>\<open>drawWin\<close> sets the colour and draws exactly
  one segment, from the centre of the start cell to the centre of the end cell,
  where the centre of the cell (r, c) is
  \<open>(margin + cellSize * c + cellSize div 2, margin + cellSize * r + cellSize div 2)\<close>
  and \<open>cellSize = sz div 3\<close>.
\<close>

theorem drawWin_line:
  assumes "\<bar>sz\<bar> < 3 * 2 ^ 52"
  shows "drawWin startPos endPos sz colour margin =
     emit ([HideTurtle, Color colour]
           @ line_segment (cell_centre (sz div 3) margin startPos)
                          (cell_centre (sz div 3) margin endPos))"
proof -
  have cs: "floor_truediv sz 3 = Inr (sz div 3)"
    using assms by (intro floor_truediv_small) simp_all
  have "\<bar>sz div 3\<bar> < 2 * 2 ^ 52" using assms by (simp add: abs_less_iff) linarith
  then have half: "floor_truediv (sz div 3) 2 = Inr (sz div 3 div 2)"
    by (intro floor_truediv_small) simp_all
  show ?thesis
    by (simp add: drawWin_def cs half line_segment_def cell_centre_def)
qed

text \<open>
  The instance of the specification: \<^verbatim>\<open>drawWin((0,0), (2,2), size=180, margin=30)\<close>
  draws one line from (30+30, 30+30) to (30+150, 30+150).
\<close>

theorem drawWin_line_witness:
  "\<bar>180 :: int\<bar> < 3 * 2 ^ 52 \<and>
   drawWin (0, 0) (2, 2) 180 ''yellow'' 30 =
     emit [HideTurtle, Color ''yellow'', PenUp, Goto (30 + 30) (30 + 30),
           PenDown, Goto (30 + 150) (30 + 150)]"
  using drawWin_line [of 180 "(0, 0)" "(2, 2)" "''yellow''" 30]
  by (simp add: line_segment_def cell_centre_def)

text \<open>
  C3 as stated fails beyond that range, for the reason C2 does: at
  \<open>sz = 3 * 2^52 + 2\<close> the cell size is \<open>4503599627370497\<close>, not
  \<open>sz div 3\<close>, and the line ends at the centre computed from it.
\<close>

theorem drawWin_line_counterexample:
  "drawWin (0, 0) (2, 2) 13510798882111490 ''yellow'' 30 =
     emit ([HideTurtle, Color ''yellow'']
           @ line_segment (cell_centre 4503599627370497 30 (0, 0))
                          (cell_centre 4503599627370497 30 (2, 2))) \<and>
   drawWin (0, 0) (2, 2) 13510798882111490 ''yellow'' 30 \<noteq>
     emit ([HideTurtle, Color ''yellow'']
           @ line_segment (cell_centre (13510798882111490 div 3) 30 (0, 0))
                          (cell_centre (13510798882111490 div 3) 30 (2, 2)))"
proof -
  have half: "floor_truediv 4503599627370497 2 = Inr (4503599627370497 div 2)"
    by (intro floor_truediv_small) simp_all
  show ?thesis
    by (simp add: drawWin_def floor_truediv_large half line_segment_def cell_centre_def emit_def)
qed

text \<open>
  C4, as amended. \<^verbatim>\<open>drawBoard\<close> visits the cells of a 3 by 3 board in
  row-major order (0,0), (0,1), ..., (2,2) and draws for each the marker of its
  value at its own (row, col), in the colour mapped from the value; with
  \<^verbatim>\<open>newBoard = False\<close> it draws no blank board before them, with
  \<^verbatim>\<open>newBoard = True\<close> it does. So for the board of nine empty markers and
  \<^verbatim>\<open>newBoard = False\<close> it issues the nine marker draws only, each with the
  colour \<^verbatim>\<open>xy_colour[""]\<close>; where the mapping has that colour and
  \<open>|sz| < 2^53\<close>, each of the nine only hides the cursor and sets the colour,
  so nothing visible is drawn.
\<close>

theorem drawBoard_cells:
  "drawBoard [[a, b, c], [d, e, f], [g, h, i]] sz board_colour xy_colour margin False =
     render_moves [(0, 0, a), (0, 1, b), (0, 2, c), (1, 0, d), (1, 1, e), (1, 2, f),
                   (2, 0, g), (2, 1, h), (2, 2, i)] sz xy_colour margin \<and>
   drawBoard [[a, b, c], [d, e, f], [g, h, i]] sz board_colour xy_colour margin True =
     then_do (drawNewBoard sz board_colour margin)
       (render_moves [(0, 0, a), (0, 1, b), (0, 2, c), (1, 0, d), (1, 1, e), (1, 2, f),
                      (2, 0, g), (2, 1, h), (2, 2, i)] sz xy_colour margin) \<and>
   drawBoard [['''', '''', ''''], ['''', '''', ''''], ['''', '''', '''']]
       sz board_colour xy_colour margin False =
     render_moves [(0, 0, ''''), (0, 1, ''''), (0, 2, ''''), (1, 0, ''''), (1, 1, ''''),
                   (1, 2, ''''), (2, 0, ''''), (2, 1, ''''), (2, 2, '''')] sz xy_colour margin \<and>
   drawBoard [['''', '''', ''''], ['''', '''', ''''], ['''', '''', '''']]
       sz board_colour xy_colour margin True =
     then_do (drawNewBoard sz board_colour margin)
       (render_moves [(0, 0, ''''), (0, 1, ''''), (0, 2, ''''), (1, 0, ''''), (1, 1, ''''),
                      (1, 2, ''''), (2, 0, ''''), (2, 1, ''''), (2, 2, '''')] sz xy_colour margin) \<and>
   (xy_colour '''' = Some colour \<and> \<bar>sz\<bar> < 2 ^ 53 \<longrightarrow>
      render_moves [(0, 0, ''''), (0, 1, ''''), (0, 2, ''''), (1, 0, ''''), (1, 1, ''''),
                    (1, 2, ''''), (2, 0, ''''), (2, 1, ''''), (2, 2, '''')] sz xy_colour margin =
        emit (concat (replicate 9 [HideTurtle, Color colour])))"
proof (intro conjI impI)
  assume a: "xy_colour [] = Some colour \<and> \<bar>sz\<bar> < 2 ^ 53"
  show "render_moves [(0, 0, []), (0, 1, []), (0, 2, []), (1, 0, []), (1, 1, []),
                    (1, 2, []), (2, 0, []), (2, 1, []), (2, 2, [])] sz xy_colour margin =
        emit (concat (replicate 9 [HideTurtle, Color colour]))"
    using a render_moves_blank [of xy_colour colour sz
        "[(0, 0), (0, 1), (0, 2), (1, 0), (1, 1), (1, 2), (2, 0), (2, 1), (2, 2)]" margin]
    by (simp add: numeral_eq_Suc del: render_moves.simps)
qed (simp_all add: drawBoard_3x3 blank_board_if_def del: render_moves.simps)

text \<open>
  With the default colours and size: nine times the two set-up commands for the
  empty board; and for the board with one X in the cell (0,1), the X as the
  second marker, drawn in the second cell of the first row.
\<close>

theorem drawBoard_cells_witness:
  "xy_default '''' = Some ''white'' \<and> \<bar>180 :: int\<bar> < 2 ^ 53 \<and>
   drawBoard [['''', '''', ''''], ['''', '''', ''''], ['''', '''', '''']]
       180 ''white'' xy_default 30 False =
     emit (concat (replicate 9 [HideTurtle, Color ''white''])) \<and>
   drawBoard [['''', ''X'', ''''], ['''', '''', ''''], ['''', '''', '''']]
       180 ''white'' xy_default 30 False =
     emit ([HideTurtle, Color ''white'']
           @ [HideTurtle, Color ''red'',
              PenUp, Goto 102 42, PenDown, Goto 138 78,
              PenUp, Goto 138 42, PenDown, Goto 102 78]
           @ concat (replicate 7 [HideTurtle, Color ''white'']))"
proof -
  have empty: "drawBoard [['''', '''', ''''], ['''', '''', ''''], ['''', '''', '''']]
       180 ''white'' xy_default 30 False =
     emit (concat (replicate 9 [HideTurtle, Color ''white'']))"
    using drawBoard_cells [of a b c d e f g h i 180 "''white''" xy_default 30 "''white''"]
    by (simp add: xy_default_def del: render_moves.simps)
  have one: "drawBoard [['''', ''X'', ''''], ['''', '''', ''''], ['''', '''', '''']]
       180 ''white'' xy_default 30 False =
     render_moves [(0, 0, ''''), (0, 1, ''X''), (0, 2, ''''), (1, 0, ''''), (1, 1, ''''),
                   (1, 2, ''''), (2, 0, ''''), (2, 1, ''''), (2, 2, '''')] 180 xy_default 30"
    using drawBoard_cells [of "''''" "''X''" "''''" "''''" "''''" "''''" "''''" "''''" "''''"
            180 "''white''" xy_default 30 "''white''"]
    by (simp del: render_moves.simps)
  show ?thesis
    unfolding one empty
    by (simp add: xy_default_def py_lookup_def drawMarker_empty_180 drawMarker_X_180
        then_do_emit_emit numeral_eq_Suc)
qed

text \<open>
  C4 as stated fails: with the default \<^verbatim>\<open>newBoard = False\<close> a board that is
  not empty as a list is not preceded by a blank board, the guard being
  \<^verbatim>\<open>len(board) == 0 or newBoard\<close>.
\<close>

theorem drawBoard_all_empty_counterexample:
  "drawBoard [['''', '''', ''''], ['''', '''', ''''], ['''', '''', '''']]
       180 ''white'' xy_default 30 False =
     emit (concat (replicate 9 [HideTurtle, Color ''white''])) \<and>
   drawBoard [['''', '''', ''''], ['''', '''', ''''], ['''', '''', '''']]
       180 ''white'' xy_default 30 False \<noteq>
     then_do (drawNewBoard 180 ''white'' 30)
       (emit (concat (replicate 9 [HideTurtle, Color ''white''])))"
proof -
  have "render_moves [(0, 0, []), (0, 1, []), (0, 2, []), (1, 0, []), (1, 1, []),
                    (1, 2, []), (2, 0, []), (2, 1, []), (2, 2, [])] 180 xy_default 30 =
        emit (concat (replicate 9 [HideTurtle, Color ''white'']))"
    using render_moves_blank [of xy_default "''white''" 180
        "[(0, 0), (0, 1), (0, 2), (1, 0), (1, 1), (1, 2), (2, 0), (2, 1), (2, 2)]" 30]
    by (simp add: xy_default_def numeral_eq_Suc del: render_moves.simps)
  then have run: "drawBoard [[[], [], []], [[], [], []], [[], [], []]]
       180 ''white'' xy_default 30 False =
     emit (concat (replicate 9 [HideTurtle, Color ''white'']))"
    by (simp add: drawBoard_3x3 blank_board_if_def del: render_moves.simps)
  have "drawNewBoard 180 ''white'' 30 = emit (blank_board 180 ''white'' 30 60)"
    by (simp add: drawNewBoard_cells floor_truediv_small)
  then have "then_do (drawNewBoard 180 ''white'' 30)
       (emit (concat (replicate 9 [HideTurtle, Color ''white''])))
      \<noteq> emit (concat (replicate 9 [HideTurtle, Color ''white'']))"
    by (simp add: then_do_def emit_def blank_board_def numeral_eq_Suc)
  with run show ?thesis by simp
qed

text \<open>
  C5. With an empty move list \<^verbatim>\<open>drawGame\<close> draws the blank board and then
  completes only if \<open>numMoves < 1\<close>. For \<open>1 \<le> numMoves\<close>, the default
  \<open>numMoves = 1\<close> among them, the loop runs over
  \<^verbatim>\<open>range(-numMoves, 0)\<close> and reads \<^verbatim>\<open>game[-numMoves]\<close> of the empty
  list: the call ends with \<^verbatim>\<open>IndexError\<close> instead of completing.
\<close>

theorem drawGame_empty:
  "drawGame [] numMoves sz board_colour xy_colour margin newBoard =
     then_do (drawNewBoard sz board_colour margin)
       (if 1 \<le> numMoves then raise IndexError else emit []) \<and>
   drawGame [] 1 sz board_colour xy_colour margin newBoard =
     then_do (drawNewBoard sz board_colour margin) (raise IndexError)"
  by (simp add: drawGame_def Let_def py_range_def drawGame_loop_first_out py_index_def)

text \<open>
  C6. \<^verbatim>\<open>drawBoard\<close> on the empty list does what one call of
  \<^verbatim>\<open>drawNewBoard\<close> does, and nothing after it: no marker is drawn.
\<close>

theorem drawBoard_empty:
  "drawBoard [] sz board_colour xy_colour margin newBoard = drawNewBoard sz board_colour margin"
  by (simp add: drawBoard_def)

text \<open>
  C7. \<^verbatim>\<open>drawMarker\<close> issues the same commands for \<open>x\<close> and \<open>X\<close>, and
  for every team string the same commands as for its lower-case form.
\<close>

theorem drawMarker_case_insensitive:
  "drawMarker ''x'' pos sz colour margin = drawMarker ''X'' pos sz colour margin \<and>
   drawMarker t pos sz colour margin = drawMarker (lower t) pos sz colour margin"
  by (rule conjI; rule drawMarker_cong_lower) (simp_all add: lower_idem lower_x)

text \<open>
  C8, as amended. Let \<open>team\<close> be no key of the colour mapping. If the cells
  of a 3 by 3 board, read in row-major order, are \<open>pre\<close>, then a cell of that
  team, then \<open>post\<close>, \<^verbatim>\<open>drawBoard\<close> draws the blank board if asked to,
  draws the markers of \<open>pre\<close> and ends with the error of the lookup; no cell of
  \<open>post\<close> is drawn. If the moves that \<^verbatim>\<open>drawGame\<close> selects
  (\<open>numMoves \<le> L\<close>: the whole game if \<open>numMoves < 1\<close>, its last
  \<open>numMoves\<close> moves otherwise) are \<open>pre\<close>, then a move of that team, then
  \<open>post\<close>, \<^verbatim>\<open>drawGame\<close> does the same. In both the call ends with an error:
  \<^verbatim>\<open>KeyError\<close>, unless a marker of \<open>pre\<close> raised before.
\<close>

theorem draw_unknown_team:
  assumes "xy_colour team = None"
  shows
    "([(0, 0, a), (0, 1, b), (0, 2, c), (1, 0, d), (1, 1, e), (1, 2, f),
       (2, 0, g), (2, 1, h), (2, 2, i)] = pre @ (row, col, team) # post \<longrightarrow>
      drawBoard [[a, b, c], [d, e, f], [g, h, i]] sz board_colour xy_colour margin newBoard =
        then_do (blank_board_if newBoard sz board_colour margin)
          (then_do (render_moves pre sz xy_colour margin) (raise KeyError)) \<and>
      snd (drawBoard [[a, b, c], [d, e, f], [g, h, i]] sz board_colour xy_colour margin newBoard)
        \<noteq> None) \<and>
     (numMoves \<le> int (length game) \<and>
      (if numMoves < 1 then game else drop (length game - nat numMoves) game)
        = pre @ (row, col, team) # post \<longrightarrow>
      drawGame game numMoves sz board_colour xy_colour margin newBoard =
        then_do (blank_board_if (game = [] \<or> newBoard) sz board_colour margin)
          (then_do (render_moves pre sz xy_colour margin) (raise KeyError)) \<and>
      snd (drawGame game numMoves sz board_colour xy_colour margin newBoard) \<noteq> None)"
proof (intro conjI impI)
  note ke = render_moves_KeyError [of xy_colour team pre row col post sz margin, OF assms]
  assume cells: "[(0, 0, a), (0, 1, b), (0, 2, c), (1, 0, d), (1, 1, e), (1, 2, f),
       (2, 0, g), (2, 1, h), (2, 2, i)] = pre @ (row, col, team) # post"
  show board: "drawBoard [[a, b, c], [d, e, f], [g, h, i]] sz board_colour xy_colour margin newBoard =
        then_do (blank_board_if newBoard sz board_colour margin)
          (then_do (render_moves pre sz xy_colour margin) (raise KeyError))"
    by (simp only: drawBoard_3x3 cells ke)
  show "snd (drawBoard [[a, b, c], [d, e, f], [g, h, i]] sz board_colour xy_colour margin newBoard)
        \<noteq> None"
    by (simp only: board then_do_raises not_False_eq_True)
next
  note ke = render_moves_KeyError [of xy_colour team pre row col post sz margin, OF assms]
  assume w: "numMoves \<le> int (length game) \<and>
      (if numMoves < 1 then game else drop (length game - nat numMoves) game)
        = pre @ (row, col, team) # post"
  show game: "drawGame game numMoves sz board_colour xy_colour margin newBoard =
        then_do (blank_board_if (game = [] \<or> newBoard) sz board_colour margin)
          (then_do (render_moves pre sz xy_colour margin) (raise KeyError))"
    using w by (simp only: drawGame_render ke)
  show "snd (drawGame game numMoves sz board_colour xy_colour margin newBoard) \<noteq> None"
    by (simp only: game then_do_raises not_False_eq_True)
qed

text \<open>
  A board with the unknown marker \<open>Z\<close> in its centre, and a game whose second
  move is of team \<open>Z\<close>, under the default colours.
\<close>

theorem draw_unknown_team_witness:
  "xy_default ''Z'' = None \<and>
   [(0, 0, ''X''), (0, 1, ''''), (0, 2, ''O''), (1, 0, ''''), (1, 1, ''Z''), (1, 2, ''''),
    (2, 0, ''X''), (2, 1, ''''), (2, 2, ''O'')]
     = [(0, 0, ''X''), (0, 1, ''''), (0, 2, ''O''), (1, 0, '''')] @ (1, 1, ''Z'')
       # [(1, 2, ''''), (2, 0, ''X''), (2, 1, ''''), (2, 2, ''O'')] \<and>
   drawBoard [[''X'', '''', ''O''], ['''', ''Z'', ''''], [''X'', '''', ''O'']]
       180 ''white'' xy_default 30 False =
     then_do (render_moves [(0, 0, ''X''), (0, 1, ''''), (0, 2, ''O''), (1, 0, '''')]
                180 xy_default 30)
       (raise KeyError) \<and>
   (- 1 :: int) \<le> int (length [(0, 0, ''X''), (1, 1, ''Z''), (2, 2, ''O'')]) \<and>
   drawGame [(0, 0, ''X''), (1, 1, ''Z''), (2, 2, ''O'')] (- 1) 180 ''white'' xy_default 30 False =
     then_do (render_moves [(0, 0, ''X'')] 180 xy_default 30) (raise KeyError)"
  using draw_unknown_team [of xy_default "''Z''" "''X''" "''''" "''O''" "''''" "''Z''" "''''"
          "''X''" "''''" "''O''" "[(0, 0, ''X''), (0, 1, ''''), (0, 2, ''O''), (1, 0, '''')]"
          1 1 "[(1, 2, ''''), (2, 0, ''X''), (2, 1, ''''), (2, 2, ''O'')]"
          180 "''white''" 30 False "- 1" "[(0, 0, ''X''), (1, 1, ''Z''), (2, 2, ''O'')]"]
        draw_unknown_team [of xy_default "''Z''" a b c d e f g h i "[(0, 0, ''X'')]"
          1 1 "[(2, 2, ''O'')]"
          180 "''white''" 30 False "- 1" "[(0, 0, ''X''), (1, 1, ''Z''), (2, 2, ''O'')]"]
  by (simp add: xy_default_def blank_board_if_def del: render_moves.simps)

text \<open>
  C8 as stated fails for \<^verbatim>\<open>drawGame\<close>: a move outside the selected window is
  never looked up. With the default \<open>numMoves = 1\<close> only the last move is
  drawn, and a first move of the unknown team \<open>Z\<close> raises nothing.
\<close>

theorem draw_unknown_team_counterexample:
  "xy_default ''Z'' = None \<and>
   snd (drawGame [(0, 0, ''Z''), (1, 1, ''X'')] 1 180 ''white'' xy_default 30 False) = None"
proof -
  have "drawGame [(0, 0, ''Z''), (1, 1, ''X'')] 1 180 ''white'' xy_default 30 False =
        render_moves [(1, 1, ''X'')] 180 xy_default 30"
    using drawGame_render [of 1 "[(0, 0, ''Z''), (1, 1, ''X'')]" 180 "''white''" xy_default 30 False]
    by (simp add: blank_board_if_def del: render_moves.simps)
  moreover have "snd (drawMarker ''X'' (1, 1) 180 ''red'' 30) = None"
    by (rule drawMarker_x_ok) (simp_all add: lower_x)
  ultimately show ?thesis
    by (simp add: xy_default_def py_lookup_def)
qed

text \<open>
  C9. For a team whose lower-case form is neither \<open>x\<close> nor \<open>o\<close> (the empty
  string among them), \<^verbatim>\<open>drawMarker\<close> issues no command other than hiding the
  cursor and setting the pen colour, whatever the position, size, colour and
  margin; for \<open>|sz| < 2^53\<close> it issues exactly these two.
\<close>

theorem drawMarker_other_team:
  assumes "lower team \<noteq> ''x''" "lower team \<noteq> ''o''"
  shows "set (fst (drawMarker team pos sz colour margin)) \<subseteq> {HideTurtle, Color colour} \<and>
         (\<bar>sz\<bar> < 2 ^ 53 \<longrightarrow>
            drawMarker team pos sz colour margin = emit [HideTurtle, Color colour])"
proof
  show "set (fst (drawMarker team pos sz colour margin)) \<subseteq> {HideTurtle, Color colour}"
    using assms
    by (auto simp: drawMarker_def after_def raise_def emit_def then_do_def split: sum.splits)
  show "\<bar>sz\<bar> < 2 ^ 53 \<longrightarrow>
            drawMarker team pos sz colour margin = emit [HideTurtle, Color colour]"
    using assms by (simp add: drawMarker_blank)
qed

text \<open>The empty marker in the centre cell of the default board.\<close>

theorem drawMarker_other_team_witness:
  "lower '''' \<noteq> ''x'' \<and> lower '''' \<noteq> ''o'' \<and> \<bar>180 :: int\<bar> < 2 ^ 53 \<and>
   set (fst (drawMarker '''' (1, 1) 180 ''white'' 30)) \<subseteq> {HideTurtle, Color ''white''} \<and>
   drawMarker '''' (1, 1) 180 ''white'' 30 = emit [HideTurtle, Color ''white'']"
  using drawMarker_other_team [of "''''" "(1, 1)" 180 "''white''" 30]
  by (simp add: lower_empty emit_def)

text \<open>
  C10. \<^verbatim>\<open>drawGame\<close> fails for \<open>numMoves > 2 * L\<close>: with a game of two
  moves and \<open>numMoves = 5\<close> the first index is \<open>2 - 5 = -3\<close>, and
  \<^verbatim>\<open>game[-3]\<close> raises \<^verbatim>\<open>IndexError\<close> before any marker is drawn.
\<close>

theorem drawGame_overrun:
  "int (length [(0, 0, ''X''), (1, 1, ''O'')]) < 5 \<and>
   drawGame [(0, 0, ''X''), (1, 1, ''O'')] 5 180 ''white'' xy_default 30 False
     = raise IndexError"
  by (simp add: drawGame_def Let_def py_range_def drawGame_loop_first_out py_index_def)

end
